theory Spec2Isabelle
  imports Main "HOL-Library.Char_ord" "HOL-Library.List_Lexorder"
begin

section \<open>Data model\<close>

text \<open>
  The development embeds \<open>read_case_1\<close> of \<open>DeepRetail/data/casereaders.py\<close>, from the
  point where the source file has been read into the data frame \<open>df\<close> with the columns
  \<open>DC, Shop, Item, date, y\<close>.

  A timestamp is a calendar date, counted in days since 1970-01-01 (the dates of the
  source carry no time of day). The quantity \<open>y\<close> is an integer: the source reads it
  as a 32-bit float, on which sums of small integers are exact. The identifier column
  holds plain strings (object dtype, as the concatenation of read chunks with different
  categories gives it), so the rows of a pivot are the identifiers met in its input.
  A chunk with no row gives a frame with no row and no column.
\<close>

type_synonym timestamp = int

record obs =
  date :: timestamp
  y :: int

text \<open>A row of \<open>df\<close> as read: the columns \<open>DC, Shop, Item, date, y\<close>.\<close>

record raw_row = obs +
  DC :: string
  Shop :: string
  Item :: string

text \<open>A row after \<open>drop(["DC", "Shop"])\<close> and \<open>rename(Item -> unique_id)\<close>.\<close>

record sale = obs +
  unique_id :: string

text \<open>
  A wide data frame: the row labels \<open>index\<close>, the column labels \<open>columns\<close> (which may
  repeat) and the values, one list per column, aligned with \<open>index\<close>. \<open>None\<close> is NaN,
  an absent cell.
\<close>

record frame =
  index :: "string list"
  columns :: "timestamp list"
  cells :: "int option list list"

datatype error = ValueError | OSError

datatype freq = W | M

definition empty_frame :: frame where
  "empty_frame = \<lparr>index = [], columns = [], cells = []\<rparr>"

text \<open>The row of identifier \<open>i\<close>: its cell in every column, NaN where \<open>i\<close> is no row label.\<close>

definition lookup :: "string list \<Rightarrow> int option list \<Rightarrow> string \<Rightarrow> int option" where
  "lookup idx col i = (case map_of (zip idx col) i of None \<Rightarrow> None | Some v \<Rightarrow> v)"

definition row_of :: "frame \<Rightarrow> string \<Rightarrow> int option list" where
  "row_of fr i = map (\<lambda>col. lookup (index fr) col i) (cells fr)"

text \<open>\<open>sum\<close> skips NaN, and the sum of nothing is 0.\<close>

definition nan_to_zero :: "int option \<Rightarrow> int" where
  "nan_to_zero v = (case v of None \<Rightarrow> 0 | Some n \<Rightarrow> n)"

definition nansum :: "int option list \<Rightarrow> int" where
  "nansum vs = sum_list (map nan_to_zero vs)"

definition frame_total :: "frame \<Rightarrow> int" where
  "frame_total fr = sum_list (map nansum (cells fr))"

section \<open>Calendar\<close>

text \<open>
  Day numbers to and from civil dates of the proleptic Gregorian calendar, as
  \<open>Timestamp\<close> does it.
\<close>

definition days_from_civil :: "int \<Rightarrow> int \<Rightarrow> int \<Rightarrow> timestamp" where
  "days_from_civil yr mo dy =
     (let yy = (if mo \<le> 2 then yr - 1 else yr);
          era = yy div 400;
          yoe = yy - era * 400;
          doy = (153 * (if mo > 2 then mo - 3 else mo + 9) + 2) div 5 + dy - 1;
          doe = yoe * 365 + yoe div 4 - yoe div 100 + doy
      in era * 146097 + doe - 719468)"

definition civil_from_days :: "timestamp \<Rightarrow> int \<times> int \<times> int" where
  "civil_from_days z =
     (let z' = z + 719468;
          era = z' div 146097;
          doe = z' - era * 146097;
          yoe = (doe - doe div 1460 + doe div 36524 - doe div 146096) div 365;
          doy = doe - (365 * yoe + yoe div 4 - yoe div 100);
          mp = (5 * doy + 2) div 153;
          dy = doy - (153 * mp + 2) div 5 + 1;
          mo = (if mp < 10 then mp + 3 else mp - 9)
      in (if mo \<le> 2 then yoe + era * 400 + 1 else yoe + era * 400, mo, dy))"

text \<open>Monday is 0 and Sunday is 6; 1970-01-01 was a Thursday.\<close>

definition weekday :: "timestamp \<Rightarrow> int" where
  "weekday d = (d + 3) mod 7"

definition is_month_end :: "timestamp \<Rightarrow> bool" where
  "is_month_end d = (snd (snd (civil_from_days (d + 1))) = 1)"

text \<open>
  The last day of the month of \<open>d\<close>: the first month end from \<open>d\<close> on. No month has
  more than 31 days, so 31 steps reach it.
\<close>

fun rollforward :: "nat \<Rightarrow> timestamp \<Rightarrow> timestamp" where
  "rollforward 0 d = d"
| "rollforward (Suc n) d = (if is_month_end d then d else rollforward n (d + 1))"

text \<open>
  The label of the period a date falls in. Frequency \<open>W\<close> is pandas' \<open>W-SUN\<close>: weeks
  that end on Sunday, closed and labelled on the right, so the label is the Sunday that
  ends the week. Frequency \<open>M\<close> is month end: the label is the last day of the month.
\<close>

fun period_end :: "freq \<Rightarrow> timestamp \<Rightarrow> timestamp" where
  "period_end W d = d + (6 - weekday d)"
| "period_end M d = rollforward 31 d"

text \<open>
  The bins of \<open>resample\<close> for columns running from \<open>lo\<close> to \<open>hi\<close>: every period from
  the one of \<open>lo\<close> to the one of \<open>hi\<close>, with the periods in between that hold no column.
\<close>

definition period_range :: "freq \<Rightarrow> timestamp \<Rightarrow> timestamp \<Rightarrow> timestamp list" where
  "period_range f lo hi = remdups_adj (map (period_end f) [lo..hi])"

section \<open>Pivot, resample and concat\<close>

text \<open>
  \<open>pd.pivot_table(df, index="unique_id", columns="date", values="y", aggfunc="sum")\<close>:
  the rows are the sorted identifiers, the columns the sorted dates, and a cell is the
  sum of \<open>y\<close> over the rows of that identifier and date, NaN when there is none.
\<close>

definition group_sum :: "sale list \<Rightarrow> string \<Rightarrow> timestamp \<Rightarrow> int option" where
  "group_sum rs i d =
     (let g = filter (\<lambda>r. unique_id r = i \<and> date r = d) rs
      in if g = [] then None else Some (sum_list (map y g)))"

definition pivot_table :: "sale list \<Rightarrow> frame" where
  "pivot_table rs =
     (let ids = sort (remdups (map unique_id rs));
          ds = sort (remdups (map date rs))
      in \<lparr>index = ids, columns = ds,
          cells = map (\<lambda>d. map (\<lambda>i. group_sum rs i d) ids) ds\<rparr>)"

text \<open>
  \<open>.resample(frequency, axis=1).sum()\<close>: the columns become the periods from the first
  date to the last, and a cell is the sum of the row's cells whose date falls in the
  period, NaN skipped; a period with no cell to sum holds 0. A frame with no column
  stays as it is.
\<close>

definition resample_sum :: "freq \<Rightarrow> frame \<Rightarrow> frame" where
  "resample_sum f fr =
     (case columns fr of
        [] \<Rightarrow> \<lparr>index = index fr, columns = [], cells = []\<rparr>
      | d0 # ds \<Rightarrow>
          let labels = period_range f d0 (last (d0 # ds))
          in \<lparr>index = index fr, columns = labels,
              cells = map (\<lambda>l. map (\<lambda>k. Some (nansum (map (\<lambda>(d, col). col ! k)
                               (filter (\<lambda>(d, col). period_end f d = l)
                                  (zip (columns fr) (cells fr))))))
                             [0..<length (index fr)]) labels\<rparr>)"

text \<open>
  \<open>pd.concat([a, b], axis=1)\<close>: the row labels are those of \<open>a\<close> followed by the new
  ones of \<open>b\<close>, the columns of \<open>a\<close> are followed by the columns of \<open>b\<close>, each aligned
  to the new row labels with NaN where its frame has no such row.
\<close>

definition reindex :: "string list \<Rightarrow> string list \<Rightarrow> int option list \<Rightarrow> int option list" where
  "reindex old new col = map (lookup old col) new"

definition concat_axis1 :: "frame \<Rightarrow> frame \<Rightarrow> frame" where
  "concat_axis1 a b =
     (let idx = index a @ filter (\<lambda>i. i \<notin> set (index a)) (index b)
      in \<lparr>index = idx, columns = columns a @ columns b,
          cells = map (reindex (index a) idx) (cells a) @
                  map (reindex (index b) idx) (cells b)\<rparr>)"

section \<open>The reader\<close>

definition chunk_size :: "freq \<Rightarrow> int" where
  "chunk_size f = (case f of W \<Rightarrow> 14 | M \<Rightarrow> 59)"

definition date_min :: "raw_row list \<Rightarrow> timestamp" where
  "date_min df = Min (set (map date df))"

definition date_max :: "raw_row list \<Rightarrow> timestamp" where
  "date_max df = Max (set (map date df))"

text \<open>\<open>df[(df["date"] < temp_date) & (df["date"] > start_date)]\<close>\<close>

definition chunk_filter :: "raw_row list \<Rightarrow> timestamp \<Rightarrow> timestamp \<Rightarrow> raw_row list" where
  "chunk_filter df start_date temp_date =
     filter (\<lambda>r. date r < temp_date \<and> date r > start_date) df"

definition drop_rename :: "raw_row \<Rightarrow> sale" where
  "drop_rename r = \<lparr>date = date r, y = y r, unique_id = Item r\<rparr>"

text \<open>One chunk: filter on the period, drop and rename, pivot and resample.\<close>

definition chunk_frame :: "freq \<Rightarrow> raw_row list \<Rightarrow> timestamp \<Rightarrow> timestamp \<Rightarrow> frame" where
  "chunk_frame f df start_date temp_date =
     resample_sum f (pivot_table (map drop_rename (chunk_filter df start_date temp_date)))"

text \<open>
  The \<open>while\<close> loop over the other chunks. \<open>to_csv\<close> is the write of the running frame
  to \<open>write_filepath\<close>: it acts on the outside world \<open>'w\<close> and may raise.
\<close>

function loop ::
  "(frame \<Rightarrow> string \<Rightarrow> 'w \<Rightarrow> error option \<times> 'w) \<Rightarrow> raw_row list \<Rightarrow> string \<Rightarrow> freq \<Rightarrow> bool \<Rightarrow>
   timestamp \<Rightarrow> frame \<Rightarrow> 'w \<Rightarrow> (error + frame) \<times> 'w" where
  "loop to_csv df write_filepath f temporary_save start_date out_df w =
     (if start_date + chunk_size f < date_max df then
        let temp_date = start_date + chunk_size f;
            temp_df = chunk_frame f df start_date temp_date;
            out_df' = concat_axis1 out_df temp_df
        in if temporary_save then
             (case to_csv out_df' write_filepath w of
                (Some e, w') \<Rightarrow> (Inl e, w')
              | (None, w') \<Rightarrow>
                  loop to_csv df write_filepath f temporary_save (temp_date - 1) out_df' w')
           else loop to_csv df write_filepath f temporary_save (temp_date - 1) out_df' w
      else (Inr out_df, w))"
  by pat_completeness auto
termination
  by (relation "measure (\<lambda>(to_csv, df, p, f, ts, s, out, w). nat (date_max df - s))")
     (auto simp: chunk_size_def split: freq.splits)

text \<open>
  The reader after the frequency check. With no row at all the minimum date is NaT,
  every comparison with it is false, no row is selected and the loop does not run.
\<close>

definition read_chunks ::
  "(frame \<Rightarrow> string \<Rightarrow> 'w \<Rightarrow> error option \<times> 'w) \<Rightarrow> raw_row list \<Rightarrow> string \<Rightarrow> freq \<Rightarrow> bool \<Rightarrow>
   'w \<Rightarrow> (error + frame) \<times> 'w" where
  "read_chunks to_csv df write_filepath f temporary_save w =
     (if df = [] then (Inr empty_frame, w)
      else
        let start_date = date_min df;
            temp_date = start_date + chunk_size f;
            out_df = chunk_frame f df start_date temp_date
        in loop to_csv df write_filepath f temporary_save (temp_date - 1) out_df w)"

definition read_case_1 ::
  "(frame \<Rightarrow> string \<Rightarrow> 'w \<Rightarrow> error option \<times> 'w) \<Rightarrow> raw_row list \<Rightarrow> string \<Rightarrow> string \<Rightarrow> bool \<Rightarrow>
   'w \<Rightarrow> (error + frame) \<times> 'w" where
  "read_case_1 to_csv df write_filepath frequency temporary_save w =
     (if frequency = ''W'' then read_chunks to_csv df write_filepath W temporary_save w
      else if frequency = ''M'' then read_chunks to_csv df write_filepath M temporary_save w
      else (Inl ValueError, w))"

text \<open>
  The chunks the reader goes through, each with the bounds \<open>(start_date, temp_date)\<close>
  of its filter: the first one, then those of the loop.
\<close>

function loop_chunks :: "freq \<Rightarrow> timestamp \<Rightarrow> timestamp \<Rightarrow> (timestamp \<times> timestamp) list" where
  "loop_chunks f date_max_df start_date =
     (if start_date + chunk_size f < date_max_df then
        (start_date, start_date + chunk_size f) #
          loop_chunks f date_max_df (start_date + chunk_size f - 1)
      else [])"
  by pat_completeness auto
termination
  by (relation "measure (\<lambda>(f, mx, s). nat (mx - s))")
     (auto simp: chunk_size_def split: freq.splits)

definition chunks :: "freq \<Rightarrow> raw_row list \<Rightarrow> (timestamp \<times> timestamp) list" where
  "chunks f df =
     (if df = [] then []
      else (date_min df, date_min df + chunk_size f) #
             loop_chunks f (date_max df) (date_min df + chunk_size f - 1))"

definition freq_name :: "freq \<Rightarrow> string" where
  "freq_name f = (case f of W \<Rightarrow> ''W'' | M \<Rightarrow> ''M'')"

section \<open>Notions used to state the properties\<close>



text \<open>The cell of identifier \<open>i\<close> in the first column labelled \<open>d\<close>.\<close>

definition cell :: "frame \<Rightarrow> string \<Rightarrow> timestamp \<Rightarrow> int option" where
  "cell fr i d =
     (case map_of (zip (columns fr) (cells fr)) d of
        None \<Rightarrow> None
      | Some col \<Rightarrow> lookup (index fr) col i)"

text \<open>
  The invariant of the loop: the columns of the running frame are in ascending order, and
  none lies after the period of the current \<open>start_date\<close>.
\<close>

definition columns_inv :: "freq \<Rightarrow> timestamp \<Rightarrow> frame \<Rightarrow> bool" where
  "columns_inv f start_date out_df =
     (sorted (columns out_df) \<and> list_all (\<lambda>l. l \<le> period_end f start_date) (columns out_df))"

text \<open>The rows of \<open>df\<close> with the quantity of every row dated \<open>d\<close> replaced by \<open>g\<close>.\<close>

definition overwrite_y :: "(raw_row \<Rightarrow> int) \<Rightarrow> timestamp \<Rightarrow> raw_row list \<Rightarrow> raw_row list" where
  "overwrite_y g d df = map (\<lambda>r. if date r = d then r\<lparr>y := g r\<rparr> else r) df"

text \<open>
  Three writers: one that keeps every frame it is given, in order; one that writes
  nothing and never raises; one that always raises.
\<close>

definition record_write :: "frame \<Rightarrow> string \<Rightarrow> frame list \<Rightarrow> error option \<times> frame list" where
  "record_write fr path written = (None, written @ [fr])"

definition no_write :: "frame \<Rightarrow> string \<Rightarrow> unit \<Rightarrow> error option \<times> unit" where
  "no_write fr path w = (None, w)"


subsection \<open>Example inputs\<close>

definition sale_row :: "string \<Rightarrow> timestamp \<Rightarrow> int \<Rightarrow> raw_row" where
  "sale_row i d v = \<lparr>date = d, y = v, DC = ''DC1'', Shop = ''S1'', Item = i\<rparr>"

text \<open>The records of the example scenario of the specification.\<close>

definition scenario_df :: "raw_row list" where
  "scenario_df =
     [sale_row ''A'' (days_from_civil 2020 1 1) 5,
      sale_row ''A'' (days_from_civil 2020 1 8) 3,
      sale_row ''B'' (days_from_civil 2020 1 3) 2]"

text \<open>The same records and one more, three weeks after the first.\<close>

definition late_df :: "raw_row list" where
  "late_df = scenario_df @ [sale_row ''A'' (days_from_civil 2020 1 21) 7]"

text \<open>
  Records on Tuesday 2020-01-14 and Wednesday 2020-01-15, two days of one week that fall
  in two chunks.
\<close>

definition boundary_df :: "raw_row list" where
  "boundary_df =
     [sale_row ''A'' (days_from_civil 2020 1 1) 1,
      sale_row ''A'' (days_from_civil 2020 1 14) 4,
      sale_row ''A'' (days_from_civil 2020 1 15) 6,
      sale_row ''A'' (days_from_civil 2020 1 30) 1]"



declare loop.simps [simp del] loop_chunks.simps [simp del]

section \<open>The loop and the chunks\<close>



lemma columns_concat_axis1 [simp]: "columns (concat_axis1 a b) = columns a @ columns b"
  by (simp add: concat_axis1_def Let_def)







lemma cells_foldl_length:
  "length (cells (foldl concat_axis1 a ms)) = length (cells a) + sum_list (map (\<lambda>m. length (cells m)) ms)"
  by (induction ms arbitrary: a) (auto simp: concat_axis1_def Let_def)





lemma index_pivot_resample [simp]:
  "index (resample_sum f (pivot_table rs)) = sort (remdups (map unique_id rs))"
  by (simp add: resample_sum_def pivot_table_def Let_def split: list.splits)





lemma rollforward_le_month_end:
  "d \<le> e \<Longrightarrow> is_month_end e \<Longrightarrow> rollforward n d \<le> e"
proof (induction n arbitrary: d)
  case 0
  then show ?case by simp
next
  case (Suc n)
  show ?case
  proof (cases "is_month_end d")
    case True
    then show ?thesis using Suc.prems by simp
  next
    case False
    then have "d \<noteq> e" using Suc.prems by auto
    then have "d + 1 \<le> e" using Suc.prems by simp
    from Suc.IH[OF this Suc.prems(2)] False show ?thesis by simp
  qed
qed

lemma rollforward_ge: "d \<le> rollforward n d"
proof (induction n arbitrary: d)
  case 0
  then show ?case by simp
next
  case (Suc n)
  have "d + 1 \<le> rollforward n (d + 1)" by (rule Suc.IH)
  then show ?case by simp
qed

lemma rollforward_mono: "d \<le> d' \<Longrightarrow> rollforward n d \<le> rollforward n d'"
proof (induction n arbitrary: d d')
  case 0
  then show ?case by simp
next
  case (Suc n)
  show ?case
  proof (cases "is_month_end d")
    case True
    have "d' \<le> rollforward (Suc n) d'" by (rule rollforward_ge)
    then show ?thesis using True Suc.prems by simp
  next
    case nd: False
    show ?thesis
    proof (cases "d = d'")
      case True
      then show ?thesis by simp
    next
      case False
      then have lt: "d + 1 \<le> d'" using Suc.prems by simp
      show ?thesis
      proof (cases "is_month_end d'")
        case True
        from rollforward_le_month_end[OF lt True] nd True show ?thesis by simp
      next
        case False
        have "rollforward n (d + 1) \<le> rollforward n (d' + 1)"
          by (rule Suc.IH) (use Suc.prems in simp)
        then show ?thesis using nd False by simp
      qed
    qed
  qed
qed

lemma period_end_mono: "d \<le> d' \<Longrightarrow> period_end f d \<le> period_end f d'"
proof (cases f)
  case W
  assume "d \<le> d'"
  then have "d + (6 - (d + 3) mod 7) \<le> d' + (6 - (d' + 3) mod 7)" by presburger
  then show ?thesis using W by (simp add: weekday_def)
next
  case M
  assume "d \<le> d'"
  then show ?thesis using M by (simp add: rollforward_mono)
qed

lemma sorted_period_range: "sorted (period_range f lo hi)"
proof -
  have "sorted (map (period_end f) [lo..hi])"
    unfolding sorted_map
    by (rule sorted_wrt_mono_rel[of _ "(\<le>)"]) (auto simp: period_end_mono)
  then show ?thesis by (simp add: period_range_def)
qed

lemma period_range_bounds:
  assumes "l \<in> set (period_range f lo hi)"
  shows "period_end f lo \<le> l \<and> l \<le> period_end f hi"
proof -
  from assms obtain d where "lo \<le> d" "d \<le> hi" "l = period_end f d"
    by (auto simp: period_range_def)
  then show ?thesis by (simp add: period_end_mono)
qed

lemma columns_resample_sum:
  "columns (resample_sum f fr) =
     (if columns fr = [] then [] else period_range f (hd (columns fr)) (last (columns fr)))"
  by (cases "columns fr") (simp_all add: resample_sum_def Let_def)

lemma columns_pivot_table: "columns (pivot_table rs) = sort (remdups (map date rs))"
  by (simp add: pivot_table_def Let_def)

lemma sorted_chunk_columns: "sorted (columns (chunk_frame f df s t))"
  by (simp add: chunk_frame_def columns_resample_sum sorted_period_range)

lemma chunk_columns_bounds:
  assumes "l \<in> set (columns (chunk_frame f df s t))"
  shows "period_end f (s + 1) \<le> l \<and> l \<le> period_end f (t - 1)"
proof -
  let ?rs = "map drop_rename (chunk_filter df s t)"
  let ?ds = "columns (pivot_table ?rs)"
  have ne: "?ds \<noteq> []" and l: "l \<in> set (period_range f (hd ?ds) (last ?ds))"
    using assms by (auto simp: chunk_frame_def columns_resample_sum split: if_splits)
  have in_chunk: "\<And>d. d \<in> set ?ds \<Longrightarrow> s < d \<and> d < t"
    by (auto simp: columns_pivot_table chunk_filter_def drop_rename_def)
  have "s < hd ?ds" using in_chunk[OF hd_in_set[OF ne]] by simp
  moreover have "last ?ds < t" using in_chunk[OF last_in_set[OF ne]] by simp
  moreover note period_range_bounds[OF l]
  ultimately show ?thesis
    using period_end_mono[of "s + 1" "hd ?ds" f] period_end_mono[of "last ?ds" "t - 1" f]
    by linarith
qed

lemma chunk_size_pos: "1 \<le> chunk_size f"
  by (cases f) (simp_all add: chunk_size_def)

lemma columns_inv_first: "columns_inv f (s + chunk_size f - 1) (chunk_frame f df s (s + chunk_size f))"
  using chunk_columns_bounds[of _ f df s "s + chunk_size f"]
  by (auto simp: columns_inv_def sorted_chunk_columns list_all_iff)

lemma columns_inv_step:
  assumes "columns_inv f s out"
  shows "columns_inv f (s + chunk_size f - 1) (concat_axis1 out (chunk_frame f df s (s + chunk_size f)))"
proof -
  let ?t = "s + chunk_size f"
  let ?c = "chunk_frame f df s ?t"
  have old: "\<And>l. l \<in> set (columns out) \<Longrightarrow> l \<le> period_end f s"
    using assms by (simp add: columns_inv_def list_all_iff)
  have new: "\<And>l. l \<in> set (columns ?c) \<Longrightarrow> period_end f (s + 1) \<le> l \<and> l \<le> period_end f (?t - 1)"
    by (rule chunk_columns_bounds)
  have m1: "period_end f s \<le> period_end f (s + 1)" by (rule period_end_mono) simp
  have m2: "period_end f s \<le> period_end f (?t - 1)"
    by (rule period_end_mono) (use chunk_size_pos[of f] in simp)
  have "sorted (columns out @ columns ?c)"
    unfolding sorted_append
    using assms sorted_chunk_columns[of f df s ?t] old new m1
    by (fastforce simp: columns_inv_def)
  moreover have "\<And>l. l \<in> set (columns out @ columns ?c) \<Longrightarrow> l \<le> period_end f (?t - 1)"
    using old new m2 by fastforce
  ultimately show ?thesis by (simp add: columns_inv_def list_all_iff)
qed

lemma loop_sorted:
  "columns_inv f s out \<Longrightarrow> loop to_csv df p f ts s out w = (Inr r, w') \<Longrightarrow> sorted (columns r)"
proof (induction to_csv df p f ts s out w rule: loop.induct)
  case (1 to_csv df p f ts s out w)
  show ?case
  proof (cases "s + chunk_size f < date_max df")
    case False
    with "1.prems" show ?thesis by (simp add: loop.simps columns_inv_def)
  next
    case True
    let ?t = "s + chunk_size f"
    let ?o = "concat_axis1 out (chunk_frame f df s ?t)"
    have inv: "columns_inv f (?t - 1) ?o" using columns_inv_step[OF "1.prems"(1)] by simp
    show ?thesis
    proof (cases ts)
      case False
      have "loop to_csv df p f ts (?t - 1) ?o w = (Inr r, w')"
        using "1.prems"(2) True False by (subst (asm) loop.simps) (simp add: Let_def)
      from "1.IH"(2)[OF True refl refl refl False inv this] show ?thesis .
    next
      case ts: True
      obtain e w1 where wr: "to_csv ?o p w = (e, w1)" by force
      show ?thesis
      proof (cases e)
        case None
        have "loop to_csv df p f ts (?t - 1) ?o w1 = (Inr r, w')"
          using "1.prems"(2) True ts wr None by (subst (asm) loop.simps) (simp add: Let_def)
        from "1.IH"(1)[OF True refl refl refl ts wr[symmetric] _ inv this] None show ?thesis
          by simp
      next
        case (Some a)
        with "1.prems"(2) True ts wr show ?thesis
          by (subst (asm) loop.simps) (simp add: Let_def)
      qed
    qed
  qed
qed

lemma loop_written_sorted:
  "columns_inv f s out \<Longrightarrow> list_all (\<lambda>fr. sorted (columns fr)) written \<Longrightarrow>
   list_all (\<lambda>fr. sorted (columns fr)) (snd (loop record_write df p f True s out written))"
proof (induction record_write df p f True s out written rule: loop.induct)
  case (1 df p f s out written)
  show ?case
  proof (cases "s + chunk_size f < date_max df")
    case False
    with "1.prems" show ?thesis by (simp add: loop.simps)
  next
    case True
    let ?t = "s + chunk_size f"
    let ?o = "concat_axis1 out (chunk_frame f df s ?t)"
    have inv: "columns_inv f (?t - 1) ?o" using columns_inv_step[OF "1.prems"(1)] by simp
    have wr: "record_write ?o p written = (None, written @ [?o])" by (simp add: record_write_def)
    have all: "list_all (\<lambda>fr. sorted (columns fr)) (written @ [?o])"
      using "1.prems"(2) inv by (simp add: columns_inv_def)
    have "loop record_write df p f True s out written =
          loop record_write df p f True (?t - 1) ?o (written @ [?o])"
      using True by (subst loop.simps) (simp add: Let_def wr)
    moreover note "1.hyps"(1)[OF True refl refl refl _ wr[symmetric] _ inv all]
    ultimately show ?thesis by simp
  qed
qed

lemma date_overwrite_y [simp]: "map date (overwrite_y g d df) = map date df"
  by (induction df) (auto simp: overwrite_y_def)

lemma date_min_overwrite_y [simp]: "date_min (overwrite_y g d df) = date_min df"
  by (simp add: date_min_def)

lemma date_max_overwrite_y [simp]: "date_max (overwrite_y g d df) = date_max df"
  by (simp add: date_max_def)

lemma overwrite_y_Nil [simp]: "(overwrite_y g d df = []) = (df = [])"
  by (simp add: overwrite_y_def)

lemma chunk_filter_overwrite_y:
  "d \<le> s \<Longrightarrow> chunk_filter (overwrite_y g d df) s t = chunk_filter df s t"
  by (induction df) (auto simp: chunk_filter_def overwrite_y_def)

lemma chunk_frame_overwrite_y:
  "d \<le> s \<Longrightarrow> chunk_frame f (overwrite_y g d df) s t = chunk_frame f df s t"
  by (simp add: chunk_frame_def chunk_filter_overwrite_y)

lemma loop_overwrite_y:
  "d \<le> s \<Longrightarrow>
   loop to_csv (overwrite_y g d df) p f ts s out w = loop to_csv df p f ts s out w"
proof (induction to_csv df p f ts s out w rule: loop.induct)
  case (1 to_csv df p f ts s out w)
  let ?t = "s + chunk_size f"
  let ?o = "concat_axis1 out (chunk_frame f df s ?t)"
  have le: "d \<le> ?t - 1" using "1.prems" chunk_size_pos[of f] by simp
  show ?case
  proof (cases "s + chunk_size f < date_max df")
    case False
    then show ?thesis
      by (subst loop.simps, subst (2) loop.simps) simp
  next
    case True
    show ?thesis
    proof (cases ts)
      case False
      from "1.IH"(2)[OF True refl refl refl False le] True False show ?thesis
        by (subst loop.simps, subst (2) loop.simps)
           (simp add: Let_def chunk_frame_overwrite_y[OF "1.prems"])
    next
      case ts: True
      obtain e w1 where wr: "to_csv ?o p w = (e, w1)" by force
      show ?thesis
      proof (cases e)
        case None
        from "1.IH"(1)[OF True refl refl refl ts wr[symmetric] _ le] None True ts wr show ?thesis
          by (subst loop.simps, subst (2) loop.simps)
             (simp add: Let_def chunk_frame_overwrite_y[OF "1.prems"])
      next
        case (Some a)
        with True ts wr show ?thesis
          by (subst loop.simps, subst (2) loop.simps)
             (simp add: Let_def chunk_frame_overwrite_y[OF "1.prems"])
      qed
    qed
  qed
qed

lemma read_chunks_overwrite_y:
  "read_chunks to_csv (overwrite_y g (date_min df) df) p f ts w = read_chunks to_csv df p f ts w"
  using chunk_size_pos[of f]
  by (simp add: read_chunks_def Let_def chunk_frame_overwrite_y loop_overwrite_y)

lemma loop_chunks_lower: "(a, b) \<in> set (loop_chunks f mx s) \<Longrightarrow> s \<le> a"
proof (induction f mx s rule: loop_chunks.induct)
  case (1 f mx s)
  show ?case
  proof (cases "s + chunk_size f < mx")
    case True
    from "1.prems" True have "(a, b) = (s, s + chunk_size f) \<or>
        (a, b) \<in> set (loop_chunks f mx (s + chunk_size f - 1))"
      by (subst (asm) loop_chunks.simps) simp
    then show ?thesis using "1.IH"[OF True] chunk_size_pos[of f] by auto
  next
    case False
    with "1.prems" show ?thesis by (subst (asm) loop_chunks.simps) simp
  qed
qed

lemma chunks_lower: "(a, b) \<in> set (chunks f df) \<Longrightarrow> date_min df \<le> a"
  using loop_chunks_lower[of a b f "date_max df" "date_min df + chunk_size f - 1"] chunk_size_pos[of f]
  by (auto simp: chunks_def split: if_splits)

section \<open>Results of the reader\<close>

lemma read_case_1_freq_name:
  "read_case_1 to_csv df p (freq_name f) ts w = read_chunks to_csv df p f ts w"
  by (cases f) (simp_all add: read_case_1_def freq_name_def)





lemma read_chunks_sorted:
  assumes "read_chunks to_csv df p f ts w = (Inr out, w')"
  shows "sorted (columns out)"
proof (cases "df = []")
  case True
  with assms show ?thesis by (auto simp: read_chunks_def empty_frame_def)
next
  case False
  with assms have "loop to_csv df p f ts (date_min df + chunk_size f - 1)
      (chunk_frame f df (date_min df) (date_min df + chunk_size f)) w = (Inr out, w')"
    by (simp add: read_chunks_def Let_def)
  from loop_sorted[OF columns_inv_first this] show ?thesis .
qed

lemma read_chunks_written_sorted:
  "list_all (\<lambda>fr. sorted (columns fr)) (snd (read_chunks record_write df p f True []))"
  by (simp add: read_chunks_def Let_def loop_written_sorted columns_inv_first)





subsection \<open>The example inputs, evaluated\<close>

lemma calendar_examples:
  "civil_from_days (days_from_civil 2020 1 1) = (2020, 1, 1)"
  "weekday (days_from_civil 2020 1 1) = 2"
  "period_end W (days_from_civil 2020 1 3) = days_from_civil 2020 1 5"
  "period_end W (days_from_civil 2020 1 5) = days_from_civil 2020 1 5"
  "period_end M (days_from_civil 2020 2 3) = days_from_civil 2020 2 29"
  "period_end M (days_from_civil 2021 2 28) = days_from_civil 2021 2 28"
  "period_end M (days_from_civil 2019 12 1) = days_from_civil 2019 12 31"
  by code_simp+

lemma monthly_example:
  "read_case_1 no_write boundary_df ''out.csv'' ''M'' False () =
     (Inr \<lparr>index = [''A''], columns = [days_from_civil 2020 1 31], cells = [[Some 11]]\<rparr>, ())"
  by code_simp

lemma scenario_run:
  "read_case_1 no_write scenario_df ''out.csv'' ''W'' False () =
     (Inr \<lparr>index = [''A'', ''B''], columns = [days_from_civil 2020 1 5, days_from_civil 2020 1 12],
           cells = [[Some 0, Some 2], [Some 3, Some 0]]\<rparr>, ())"
  by code_simp

lemma boundary_run:
  "read_case_1 no_write boundary_df ''out.csv'' ''W'' False () =
     (Inr \<lparr>index = [''A''], columns = [days_from_civil 2020 1 19, days_from_civil 2020 1 19],
           cells = [[Some 4], [Some 6]]\<rparr>, ())"
  by code_simp


section \<open>The claims\<close>

text \<open>
  Claim C1 (conservation): the sum of all cells of the returned frame equals the sum of
  \<open>y\<close> over all input rows. The reader does not do this. On the records of the example
  scenario with one more record three weeks after the first, of total quantity 17, it
  returns a frame of total 5: the row on the minimum date (quantity 5) passes no filter,
  and the row on 2020-01-21 (quantity 7) lies after the only chunk, since the loop stops
  as soon as \<open>start_date + chunk_period\<close> reaches the maximum date.
\<close>

theorem late_rows_lost:
  "fst (read_case_1 no_write late_df ''out.csv'' ''W'' False ()) =
     Inr \<lparr>index = [''A'', ''B''], columns = [days_from_civil 2020 1 5, days_from_civil 2020 1 12],
          cells = [[Some 0, Some 2], [Some 3, Some 0]]\<rparr> \<and>
   frame_total \<lparr>index = [''A'', ''B''], columns = [days_from_civil 2020 1 5, days_from_civil 2020 1 12],
          cells = [[Some 0, Some 2], [Some 3, Some 0]]\<rparr> = 5 \<and>
   sum_list (map y late_df) = 17"
  by code_simp

text \<open>
  Claim C2 (window coverage): the filters of the chunks cover every date from the first
  to the last. The reader does not do this. For the same input, whose dates run from
  2020-01-01 to 2020-01-21, the only chunk has the bounds 2020-01-01 and 2020-01-15,
  both exclusive: its filter keeps the rows of 2020-01-03 and 2020-01-08, and neither
  the row of the first date nor the row of the last date.
\<close>

theorem first_and_last_date_uncovered:
  "date_min late_df = days_from_civil 2020 1 1 \<and>
   date_max late_df = days_from_civil 2020 1 21 \<and>
   chunks W late_df = [(days_from_civil 2020 1 1, days_from_civil 2020 1 15)] \<and>
   chunk_filter late_df (days_from_civil 2020 1 1) (days_from_civil 2020 1 15) =
     [sale_row ''A'' (days_from_civil 2020 1 8) 3, sale_row ''B'' (days_from_civil 2020 1 3) 2]"
  by code_simp




text \<open>
  Claim C4, as amended. The columns of the returned frame are in ascending order,
  possibly with equal neighbours, and so are the columns of the running frame after
  every merge: with checkpointing on and a writer that keeps what it is given, every
  frame written has its columns in ascending order.
\<close>

theorem columns_ascending_after_every_merge:
  "(read_case_1 to_csv df p (freq_name f) ts w = (Inr out, w') \<longrightarrow> sorted (columns out)) \<and>
   list_all (\<lambda>fr. sorted (columns fr)) (snd (read_case_1 record_write df p (freq_name f) True []))"
  by (auto simp: read_case_1_freq_name read_chunks_written_sorted dest: read_chunks_sorted)

theorem columns_ascending_after_every_merge_witness:
  "sorted (columns \<lparr>index = [''A''], columns = [days_from_civil 2020 1 19, days_from_civil 2020 1 19],
            cells = [[Some 4], [Some 6]]\<rparr>) \<and>
   list_all (\<lambda>fr. sorted (columns fr)) (snd (read_case_1 record_write boundary_df ''out.csv'' (freq_name W) True []))"
proof -
  have "read_case_1 no_write boundary_df ''out.csv'' (freq_name W) False () =
     (Inr \<lparr>index = [''A''], columns = [days_from_civil 2020 1 19, days_from_civil 2020 1 19],
           cells = [[Some 4], [Some 6]]\<rparr>, ())"
    using boundary_run by (simp add: freq_name_def)
  with columns_ascending_after_every_merge[of no_write boundary_df "''out.csv''" W False "()" _ "()"]
  show ?thesis by blast
qed

text \<open>
  The claim as stated fails, on the same input: the two columns of the week that ends
  on 2020-01-19 are equal, so the columns are not strictly increasing.
\<close>

theorem strictly_ascending_counterexample:
  "fst (read_case_1 no_write boundary_df ''out.csv'' ''W'' False ()) =
     Inr \<lparr>index = [''A''], columns = [days_from_civil 2020 1 19, days_from_civil 2020 1 19],
          cells = [[Some 4], [Some 6]]\<rparr> \<and>
   \<not> sorted_wrt (<) (columns \<lparr>index = [''A''], columns = [days_from_civil 2020 1 19, days_from_civil 2020 1 19],
          cells = [[Some 4], [Some 6]]\<rparr>)"
  by code_simp

text \<open>
  Claim C5. A frequency other than \<open>W\<close> and \<open>M\<close> is rejected at once: \<open>read_case_1\<close>
  raises its error (a \<open>ValueError\<close>, the configuration error of the reader) whatever the
  rows are, no frame is returned, and the outside world is as it was, so nothing was
  written.
\<close>

theorem frequency_rejected:
  "frequency \<noteq> ''W'' \<Longrightarrow> frequency \<noteq> ''M'' \<Longrightarrow>
   read_case_1 to_csv df write_filepath frequency temporary_save w = (Inl ValueError, w)"
  by (simp add: read_case_1_def)

theorem frequency_rejected_witness:
  "read_case_1 record_write scenario_df ''out.csv'' ''D'' True [] = (Inl ValueError, [])"
  by (rule frequency_rejected) simp_all






text \<open>
  Claim C8, as amended. For the records of the example scenario and frequency \<open>W\<close>
  (whose chunks span 14 days) the reader returns a frame with the rows \<open>A\<close> and \<open>B\<close>
  and two columns, labelled with the Sundays that end the weeks, 2020-01-05 and
  2020-01-12. The cell of \<open>A\<close> in the second week is 3, the cell of \<open>B\<close> in the first
  week is 2, and the cell of \<open>B\<close> in the second week is an explicit 0.
\<close>

theorem scenario_result:
  "\<exists>out. read_case_1 no_write scenario_df ''out.csv'' ''W'' False () = (Inr out, ()) \<and>
     index out = [''A'', ''B''] \<and>
     columns out = [days_from_civil 2020 1 5, days_from_civil 2020 1 12] \<and>
     civil_from_days (days_from_civil 2020 1 5) = (2020, 1, 5) \<and>
     civil_from_days (days_from_civil 2020 1 12) = (2020, 1, 12) \<and>
     weekday (days_from_civil 2020 1 5) = 6 \<and> weekday (days_from_civil 2020 1 12) = 6 \<and>
     cell out ''A'' (days_from_civil 2020 1 12) = Some 3 \<and>
     cell out ''B'' (days_from_civil 2020 1 5) = Some 2 \<and>
     cell out ''B'' (days_from_civil 2020 1 12) = Some 0"
proof -
  let ?out = "\<lparr>index = [''A'', ''B''], columns = [days_from_civil 2020 1 5, days_from_civil 2020 1 12],
           cells = [[Some 0, Some 2], [Some 3, Some 0]]\<rparr>"
  have "index ?out = [''A'', ''B''] \<and>
     columns ?out = [days_from_civil 2020 1 5, days_from_civil 2020 1 12] \<and>
     civil_from_days (days_from_civil 2020 1 5) = (2020, 1, 5) \<and>
     civil_from_days (days_from_civil 2020 1 12) = (2020, 1, 12) \<and>
     weekday (days_from_civil 2020 1 5) = 6 \<and> weekday (days_from_civil 2020 1 12) = 6 \<and>
     cell ?out ''A'' (days_from_civil 2020 1 12) = Some 3 \<and>
     cell ?out ''B'' (days_from_civil 2020 1 5) = Some 2 \<and>
     cell ?out ''B'' (days_from_civil 2020 1 12) = Some 0"
    by code_simp
  with scenario_run show ?thesis by blast
qed

text \<open>
  The claim as stated fails: the columns are not labelled 2020-01-01 and 2020-01-08,
  the row of \<open>A\<close> is not 5 and 3, and the cell of \<open>B\<close> in the second week is not
  absent.
\<close>

theorem scenario_counterexample:
  "fst (read_case_1 no_write scenario_df ''out.csv'' ''W'' False ()) =
     Inr \<lparr>index = [''A'', ''B''], columns = [days_from_civil 2020 1 5, days_from_civil 2020 1 12],
          cells = [[Some 0, Some 2], [Some 3, Some 0]]\<rparr> \<and>
   [days_from_civil 2020 1 5, days_from_civil 2020 1 12] \<noteq>
     [days_from_civil 2020 1 1, days_from_civil 2020 1 8] \<and>
   row_of \<lparr>index = [''A'', ''B''], columns = [days_from_civil 2020 1 5, days_from_civil 2020 1 12],
           cells = [[Some 0, Some 2], [Some 3, Some 0]]\<rparr> ''A'' \<noteq> [Some 5, Some 3] \<and>
   row_of \<lparr>index = [''A'', ''B''], columns = [days_from_civil 2020 1 5, days_from_civil 2020 1 12],
           cells = [[Some 0, Some 2], [Some 3, Some 0]]\<rparr> ''B'' \<noteq> [Some 2, None]"
  by code_simp




text \<open>
  Claim C10. A row dated on the minimum date passes the filter of no chunk, and its
  quantity has no part in the result: replacing the quantities of the rows of the
  minimum date by any others leaves the result of the reader as it is.
\<close>

theorem min_date_rows_excluded:
  "(r \<in> set df \<and> date r = date_min df \<and> (a, b) \<in> set (chunks f df) \<longrightarrow>
      r \<notin> set (chunk_filter df a b)) \<and>
   read_case_1 to_csv (overwrite_y g (date_min df) df) p frequency ts w =
   read_case_1 to_csv df p frequency ts w"
  using chunks_lower[of a b f df]
  by (auto simp: read_case_1_def read_chunks_overwrite_y chunk_filter_def)

theorem min_date_rows_excluded_witness:
  "sale_row ''A'' (days_from_civil 2020 1 1) 5 \<notin>
     set (chunk_filter scenario_df (days_from_civil 2020 1 1) (days_from_civil 2020 1 15)) \<and>
   read_case_1 no_write (overwrite_y (\<lambda>r. 1000) (date_min scenario_df) scenario_df)
     ''out.csv'' ''W'' False () =
   read_case_1 no_write scenario_df ''out.csv'' ''W'' False ()"
proof -
  have h1: "sale_row ''A'' (days_from_civil 2020 1 1) 5 \<in> set scenario_df"
    by (simp add: scenario_df_def)
  have h2: "date (sale_row ''A'' (days_from_civil 2020 1 1) 5) = date_min scenario_df"
    by code_simp
  have "chunks W scenario_df = [(days_from_civil 2020 1 1, days_from_civil 2020 1 15)]"
    by code_simp
  then have h3: "(days_from_civil 2020 1 1, days_from_civil 2020 1 15) \<in> set (chunks W scenario_df)"
    by simp
  from min_date_rows_excluded[of "sale_row ''A'' (days_from_civil 2020 1 1) 5" scenario_df
      "days_from_civil 2020 1 1" "days_from_civil 2020 1 15" W no_write "\<lambda>r. 1000"
      "''out.csv''" "''W''" False "()"] h1 h2 h3
  show ?thesis by blast
qed

end
